theory Spec2Isabelle
  imports Complex_Main "HOL-Library.Char_ord" "HOL-Library.List_Lexorder"
begin

section \<open>Data model\<close>

text \<open>
  The prediction pipeline of celltypist (\<^verbatim>\<open>classifier.py\<close>, \<^verbatim>\<open>models.py\<close>) works on
  numpy arrays and pandas frames. A one-dimensional array is a list, a matrix is the list
  of its rows (one row per cell). Array entries are modelled as real numbers, so every
  comparison made by the code is the comparison of the model; NaN and the infinities are
  not values of the model.
\<close>

datatype error =
    KeyError
  | IndexError
  | ShapeError
  | ArgmaxEmpty
  | UnrecognizedMode
  | TooManyValuesToUnpack
  | ColumnsOverlap
  | NameError
  | RequestFailed
  | JSONDecodeError

text \<open>
  The fields of the scikit-learn objects are named as in the source, without the trailing
  underscore (\<^verbatim>\<open>coef_\<close>, \<^verbatim>\<open>intercept_\<close>, \<^verbatim>\<open>classes_\<close>, \<^verbatim>\<open>n_features_in_\<close>,
  \<^verbatim>\<open>mean_\<close>, \<^verbatim>\<open>scale_\<close>).
\<close>

record sgd_classifier =
  features :: "string list"
  coef :: "real list list"
  intercept :: "real list"
  classes :: "string list"
  n_features_in :: nat

record standard_scaler =
  scaler_mean :: "real list"
  scaler_scale :: "real list"

record model =
  classifier :: sgd_classifier
  scaler :: standard_scaler
  description :: "(string \<times> string) list"

text \<open>
  A \<^verbatim>\<open>Classifier\<close> object holds the expression matrix, its gene names, the cell names
  (\<^verbatim>\<open>adata.obs_names\<close>) and a reference to the \<^verbatim>\<open>Model\<close> object it was given. The model
  lives in a store, so that two holders of one reference see each other's assignments.
\<close>

record classifier_obj =
  indata :: "real list list"
  indata_genes :: "string list"
  obs_names :: "string list"
  model_ref :: nat

type_synonym store = "nat \<Rightarrow> model"

record dataframe =
  index :: "string list"
  columns :: "(string \<times> string list) list"

record prob_frame =
  p_index :: "string list"
  p_columns :: "string list"
  p_values :: "real list list"

record annotation_result =
  predicted_labels :: dataframe
  probability_table :: prob_frame
  cell_count :: nat

section \<open>Array primitives\<close>

definition isin :: "'a list \<Rightarrow> 'a list \<Rightarrow> bool list" where
  "isin xs ys = map (\<lambda>x. x \<in> set ys) xs"

text \<open>\<^verbatim>\<open>np.where(b)[0]\<close>: the positions of the true entries, ascending.\<close>

definition where_true :: "bool list \<Rightarrow> nat list" where
  "where_true bs = filter (\<lambda>i. bs ! i) [0..<length bs]"

text \<open>Indexing with an index array, \<^verbatim>\<open>xs[idx]\<close>; an index out of range raises.\<close>

definition take_idx :: "'a list \<Rightarrow> nat list \<Rightarrow> error + 'a list" where
  "take_idx xs idx =
     (if \<forall>i \<in> set idx. i < length xs then Inr (map (\<lambda>i. xs ! i) idx) else Inl IndexError)"

text \<open>Column selection \<^verbatim>\<open>X[:, idx]\<close>.\<close>

definition take_cols :: "'a list list \<Rightarrow> nat list \<Rightarrow> error + 'a list list" where
  "take_cols X idx =
     (if \<forall>row \<in> set X. \<forall>i \<in> set idx. i < length row
      then Inr (map (\<lambda>row. map (\<lambda>i. row ! i) idx) X) else Inl IndexError)"

text \<open>
  \<^verbatim>\<open>DataFrame(features).reset_index().set_index('features').loc[genes, 'index'].values\<close>:
  for every requested gene, in the order requested, the positions at which the feature list
  holds it (all of them when the feature list repeats a name); a gene that is no feature
  raises.
\<close>

definition positions :: "string list \<Rightarrow> string list \<Rightarrow> nat list" where
  "positions feats genes =
     concat (map (\<lambda>g. filter (\<lambda>i. feats ! i = g) [0..<length feats]) genes)"

definition loc_index :: "string list \<Rightarrow> string list \<Rightarrow> error + nat list" where
  "loc_index feats genes =
     (if \<forall>g \<in> set genes. g \<in> set feats then Inr (positions feats genes) else Inl KeyError)"

text \<open>
  \<^verbatim>\<open>X - v\<close> and \<^verbatim>\<open>X / v\<close> for a matrix with \<open>k\<close> columns and a vector: numpy
  broadcasts the vector along the rows when the lengths agree, stretches a one-column
  matrix or a one-element vector, and raises otherwise. The result comes with its number
  of columns.
\<close>

definition broadcast_rows ::
  "(real \<Rightarrow> real \<Rightarrow> real) \<Rightarrow> nat \<Rightarrow> real list list \<Rightarrow> real list \<Rightarrow> error + (nat \<times> real list list)" where
  "broadcast_rows f k X v =
     (if length v = k then Inr (k, map (\<lambda>row. map (\<lambda>j. f (row ! j) (v ! j)) [0..<k]) X)
      else if k = 1 then Inr (length v, map (\<lambda>row. map (\<lambda>y. f (row ! 0) y) v) X)
      else if length v = 1 then Inr (k, map (\<lambda>row. map (\<lambda>j. f (row ! j) (v ! 0)) [0..<k]) X)
      else Inl ShapeError)"

text \<open>\<^verbatim>\<open>X[X > 10] = 10\<close>\<close>

definition clip10 :: "real list list \<Rightarrow> real list list" where
  "clip10 X = map (map (\<lambda>x. if x > 10 then 10 else x)) X"

text \<open>\<^verbatim>\<open>row.argmax()\<close>: the first position holding the greatest entry.\<close>

fun argmax :: "'a::linorder list \<Rightarrow> nat" where
  "argmax [] = 0"
| "argmax [x] = 0"
| "argmax (x # y # ys) = (let j = argmax (y # ys) in if (y # ys) ! j \<le> x then 0 else Suc j)"

text \<open>\<^verbatim>\<open>sep.join(xs)\<close>\<close>

fun join :: "string \<Rightarrow> string list \<Rightarrow> string" where
  "join sep [] = []"
| "join sep [x] = x"
| "join sep (x # y # ys) = x @ sep @ join sep (y # ys)"

section \<open>Scoring: \<^verbatim>\<open>Model.predict_labels_and_prob\<close>\<close>

text \<open>
  Modelled from the spec: \<^verbatim>\<open>classifier.decision_function\<close> is scikit-learn code, not part
  of the repository. Section 4.2 of the specification gives it: the decision score of a
  cell for a class is the product of the cell's row with the class's weight vector, plus
  the class's intercept. The sum is that of the real numbers: the rounding of float64
  additions, and with it any dependence of a score on the order of its terms, is not
  represented, and neither is the validation scikit-learn applies to the matrix before it
  computes the scores.
\<close>

definition dot :: "real list \<Rightarrow> real list \<Rightarrow> real" where
  "dot x w = sum_list (map (\<lambda>(a, b). a * b) (zip x w))"

definition decision_function :: "sgd_classifier \<Rightarrow> real list list \<Rightarrow> real list list" where
  "decision_function clf X =
     map (\<lambda>x. map (\<lambda>(w, b). dot x w + b) (zip (coef clf) (intercept clf))) X"

text \<open>\<^verbatim>\<open>scipy.special.expit\<close>, the logistic function.\<close>

definition expit :: "real \<Rightarrow> real" where
  "expit x = 1 / (1 + exp (- x))"

text \<open>
  \<^verbatim>\<open>np.array(strs)\<close> of Python strings is an array of fixed-width strings whose width is
  that of the longest entry (one when every entry is empty). Assigning a string to an
  entry of such an array keeps only the first \<open>width\<close> characters of it. The list of
  labels has one entry per cell; a batch without cells, for which numpy builds no array
  of strings, is given the empty list of labels here.
\<close>

definition str_width :: "string list \<Rightarrow> nat" where
  "str_width strs = max 1 (foldr (\<lambda>s n. max (length s) n) strs 0)"

definition assign_where_empty :: "string list \<Rightarrow> string \<Rightarrow> string list" where
  "assign_where_empty labs v = map (\<lambda>l. if l = [] then take (str_width labs) v else l) labs"

definition best_match_labels :: "string list \<Rightarrow> real list list \<Rightarrow> error + string list" where
  "best_match_labels cls scores =
     (if \<exists>row \<in> set scores. row = [] then Inl ArgmaxEmpty
      else take_idx cls (map argmax scores))"

fun collect :: "(error + 'a) list \<Rightarrow> error + 'a list" where
  "collect [] = Inr []"
| "collect (Inl e # rs) = Inl e"
| "collect (Inr x # rs) = (case collect rs of Inl e \<Rightarrow> Inl e | Inr xs \<Rightarrow> Inr (x # xs))"

definition prob_match_labels :: "string list \<Rightarrow> real list list \<Rightarrow> real \<Rightarrow> error + string list" where
  "prob_match_labels cls probs p_thres =
     (let flags = map (map (\<lambda>p. p > p_thres)) probs
      in case collect (map (\<lambda>x. case take_idx cls (where_true x) of
                                    Inl e \<Rightarrow> Inl e | Inr names \<Rightarrow> Inr (join ''|'' names)) flags) of
           Inl e \<Rightarrow> Inl e
         | Inr labs \<Rightarrow> Inr (assign_where_empty labs ''Unassigned''))"

definition predict_labels_and_prob ::
  "model \<Rightarrow> real list list \<Rightarrow> string \<Rightarrow> real
     \<Rightarrow> error + (real list list \<times> real list list \<times> string list)" where
  "predict_labels_and_prob m X mode p_thres =
     (let scores = decision_function (classifier m) X;
          probs = map (map expit) scores
      in if mode = ''best match'' then
           (case best_match_labels (classes (classifier m)) scores of
              Inl e \<Rightarrow> Inl e | Inr labs \<Rightarrow> Inr (scores, probs, labs))
         else if mode = ''prob match'' then
           (case prob_match_labels (classes (classifier m)) probs p_thres of
              Inl e \<Rightarrow> Inl e | Inr labs \<Rightarrow> Inr (scores, probs, labs))
         else Inl UnrecognizedMode)"

section \<open>Gene alignment and rescaling: \<^verbatim>\<open>Classifier.celltype\<close>\<close>

text \<open>
  The method runs on the model object and on the classifier object, assigning to both as
  it goes; an exception leaves the assignments made so far in place. The outcome of the
  call to \<^verbatim>\<open>predict_labels_and_prob\<close> is a triple, which the method unpacks into two
  names: that assignment raises, so the frames of lines 196-197 are never built.
\<close>

text \<open>Lines 174-179: the input's columns that are model features, and their positions in the model.\<close>

definition match_genes :: "model \<Rightarrow> classifier_obj \<Rightarrow> classifier_obj \<times> (error + nat list)" where
  "match_genes m c =
     (let k_x = isin (indata_genes c) (features (classifier m));
          k_x_idx = where_true k_x
      in case take_cols (indata c) k_x_idx of
           Inl e \<Rightarrow> (c, Inl e)
         | Inr X0 \<Rightarrow>
             (case take_idx (indata_genes c) k_x_idx of
                Inl e \<Rightarrow> (c\<lparr>indata := X0\<rparr>, Inl e)
              | Inr genes \<Rightarrow>
                  (c\<lparr>indata := X0, indata_genes := genes\<rparr>,
                   loc_index (features (classifier m)) genes)))"

text \<open>Lines 182-186: subtract the mean, divide by the scale, clip at 10.\<close>

definition scale_indata :: "model \<Rightarrow> nat list \<Rightarrow> classifier_obj \<Rightarrow> classifier_obj \<times> (error + unit)" where
  "scale_indata m lr_idx c =
     (case take_idx (scaler_mean (scaler m)) lr_idx of
        Inl e \<Rightarrow> (c, Inl e)
      | Inr means \<Rightarrow>
     (case take_idx (scaler_scale (scaler m)) lr_idx of
        Inl e \<Rightarrow> (c, Inl e)
      | Inr sds \<Rightarrow>
     (case broadcast_rows (\<lambda>a b. a - b) (length (indata_genes c)) (indata c) means of
        Inl e \<Rightarrow> (c, Inl e)
      | Inr kX1 \<Rightarrow>
     (case broadcast_rows (\<lambda>a b. a / b) (fst kX1) (snd kX1) sds of
        Inl e \<Rightarrow> (c\<lparr>indata := snd kX1\<rparr>, Inl e)
      | Inr kX2 \<Rightarrow> (c\<lparr>indata := clip10 (snd kX2)\<rparr>, Inr ())))))"

text \<open>Lines 188-190: the classifier of the model is overwritten with the matched subset.\<close>

definition subset_model :: "model \<Rightarrow> nat list \<Rightarrow> model \<times> (error + unit)" where
  "subset_model m lr_idx =
     (let clf1 = (classifier m)\<lparr>n_features_in := length lr_idx\<rparr>
      in case take_idx (features clf1) lr_idx of
           Inl e \<Rightarrow> (m\<lparr>classifier := clf1\<rparr>, Inl e)
         | Inr feats \<Rightarrow>
             (let clf2 = clf1\<lparr>features := feats\<rparr>
              in case take_cols (coef clf2) lr_idx of
                   Inl e \<Rightarrow> (m\<lparr>classifier := clf2\<rparr>, Inl e)
                 | Inr cf \<Rightarrow> (m\<lparr>classifier := clf2\<lparr>coef := cf\<rparr>\<rparr>, Inr ())))"

definition celltype_run ::
  "model \<Rightarrow> classifier_obj \<Rightarrow> (model \<times> classifier_obj) \<times> (error + annotation_result)" where
  "celltype_run m c =
     (let r1 = match_genes m c
      in case snd r1 of
           Inl e \<Rightarrow> ((m, fst r1), Inl e)
         | Inr lr_idx \<Rightarrow>
     (let r2 = scale_indata m lr_idx (fst r1)
      in case snd r2 of
           Inl e \<Rightarrow> ((m, fst r2), Inl e)
         | Inr u \<Rightarrow>
     (let r3 = subset_model m lr_idx
      in case snd r3 of
           Inl e \<Rightarrow> ((fst r3, fst r2), Inl e)
         | Inr u \<Rightarrow>
     (case predict_labels_and_prob (fst r3) (indata (fst r2)) ''best match'' (1 / 2) of
        Inl e \<Rightarrow> ((fst r3, fst r2), Inl e)
      | Inr triple \<Rightarrow> ((fst r3, fst r2), Inl TooManyValuesToUnpack)))))"

text \<open>
  \<^verbatim>\<open>self.model\<close> is a reference: the assignments of lines 188-190 land in the one model
  object that every holder of the reference shares.
\<close>

definition celltype ::
  "store \<Rightarrow> classifier_obj \<Rightarrow> (store \<times> classifier_obj) \<times> (error + annotation_result)" where
  "celltype h c =
     (case celltype_run (h (model_ref c)) c of
        ((m', c'), r) \<Rightarrow> ((h(model_ref c := m'), c'), r))"

text \<open>
  What the method needs of its input to run through: the feature names of the model are
  pairwise different, the scaler and the weight matrix have one entry per feature, no
  scale is zero, and every row of the matrix has one entry per gene name.
\<close>

definition wf_input :: "model \<Rightarrow> classifier_obj \<Rightarrow> bool" where
  "wf_input m c \<longleftrightarrow>
     distinct (features (classifier m)) \<and>
     length (scaler_mean (scaler m)) = length (features (classifier m)) \<and>
     length (scaler_scale (scaler m)) = length (features (classifier m)) \<and>
     0 \<notin> set (scaler_scale (scaler m)) \<and>
     (\<forall>w \<in> set (coef (classifier m)). length w = length (features (classifier m))) \<and>
     (\<forall>row \<in> set (indata c). length row = length (indata_genes c))"

text \<open>
  Names for what \<^verbatim>\<open>celltype\<close> computes on the way: the positions of the input columns it
  keeps (\<^verbatim>\<open>k_x_idx\<close>), the gene names it keeps, the model positions it matches them with
  (\<^verbatim>\<open>lr_idx\<close>), and the closed forms of the rescaled matrix and of the overwritten model on
  a well-formed input.
\<close>

definition kept_columns :: "model \<Rightarrow> classifier_obj \<Rightarrow> nat list" where
  "kept_columns m c = where_true (isin (indata_genes c) (features (classifier m)))"

definition kept_genes :: "model \<Rightarrow> classifier_obj \<Rightarrow> string list" where
  "kept_genes m c = filter (\<lambda>g. g \<in> set (features (classifier m))) (indata_genes c)"

definition lr_idx_of :: "model \<Rightarrow> classifier_obj \<Rightarrow> nat list" where
  "lr_idx_of m c = (case snd (match_genes m c) of Inl e \<Rightarrow> [] | Inr lr_idx \<Rightarrow> lr_idx)"

definition rescaled :: "model \<Rightarrow> classifier_obj \<Rightarrow> real list list" where
  "rescaled m c =
     map (\<lambda>row. map (\<lambda>j. let x = (row ! (kept_columns m c ! j)
                                   - scaler_mean (scaler m) ! (lr_idx_of m c ! j))
                                 / scaler_scale (scaler m) ! (lr_idx_of m c ! j)
                          in if x > 10 then 10 else x)
                   [0..<length (lr_idx_of m c)]) (indata c)"

definition aligned_model :: "model \<Rightarrow> classifier_obj \<Rightarrow> model" where
  "aligned_model m c =
     m\<lparr>classifier := (classifier m)\<lparr>n_features_in := length (kept_genes m c),
          features := kept_genes m c,
          coef := map (\<lambda>w. map ((!) w) (lr_idx_of m c)) (coef (classifier m))\<rparr>\<rparr>"

text \<open>
  The alignment as the specification words it: the genes common to model and input, in
  the order of the model's feature list.
\<close>

definition model_order_intersection :: "string list \<Rightarrow> string list \<Rightarrow> string list" where
  "model_order_intersection feats genes = filter (\<lambda>g. g \<in> set genes) feats"

section \<open>Majority voting: \<^verbatim>\<open>Classifier.majority_vote\<close>\<close>













section \<open>Model download: \<^verbatim>\<open>download_models\<close>\<close>

text \<open>
  The environment of the download functions: the files of the models directory with
  their contents, the index file \<^verbatim>\<open>models.json\<close>, what a request to a URL answers (nothing
  when the request fails), the requests made so far and the log.
\<close>

record model_entry =
  filename :: string
  url :: string

datatype index_file = Missing | Unreadable | Index "model_entry list"

datatype log_entry =
    StoringModels
  | Skipping nat nat string
  | Downloading nat nat string
  | Failed string

record env =
  files :: "string \<rightharpoonup> string"
  index_json :: index_file
  remote_index :: "model_entry list option"
  remote :: "string \<Rightarrow> string option"
  requested :: "string list"
  logged :: "log_entry list"

definition models_path :: string where
  "models_path = ''~/.celltypist/data/models''"

definition get_model_path :: "string \<Rightarrow> string" where
  "get_model_path file = models_path @ ''/'' @ file"

definition index_url :: string where
  "index_url = ''https://celltypist.cog.sanger.ac.uk/models/models.json''"

text \<open>
  \<^verbatim>\<open>download_model_index()\<close> with its default argument: the index file is opened for
  writing, then requested; a failing request leaves the file empty and propagates.
\<close>

definition download_model_index :: "env \<Rightarrow> env \<times> (error + unit)" where
  "download_model_index e =
     (case remote_index e of
        None \<Rightarrow> (e\<lparr>index_json := Unreadable, requested := requested e @ [index_url]\<rparr>,
                 Inl RequestFailed)
      | Some ix \<Rightarrow> (e\<lparr>index_json := Index ix, requested := requested e @ [index_url, index_url]\<rparr>,
                    Inr ()))"

definition load_index :: "env \<Rightarrow> env \<times> (error + model_entry list)" where
  "load_index e =
     (case index_json e of
        Missing \<Rightarrow> (e, Inl JSONDecodeError)
      | Unreadable \<Rightarrow> (e, Inl JSONDecodeError)
      | Index ix \<Rightarrow> (e, Inr ix))"

definition get_models_index :: "bool \<Rightarrow> env \<Rightarrow> env \<times> (error + model_entry list)" where
  "get_models_index force_update e =
     (if index_json e = Missing \<or> force_update
      then (let r = download_model_index e
            in case snd r of Inl err \<Rightarrow> (fst r, Inl err) | Inr u \<Rightarrow> load_index (fst r))
      else load_index e)"

text \<open>
  Lines 254-265, the loop over the models of the index: a model whose file exists is
  skipped unless an update is forced; otherwise its file is opened for writing and its
  URL requested, and a failing request is logged and the loop goes on.
\<close>

fun download_loop :: "bool \<Rightarrow> nat \<Rightarrow> nat \<Rightarrow> model_entry list \<Rightarrow> env \<Rightarrow> env" where
  "download_loop force_update model_count idx [] e = e"
| "download_loop force_update model_count idx (m # ms) e =
     (let model_path = get_model_path (filename m)
      in if files e model_path \<noteq> None \<and> \<not> force_update
         then download_loop force_update model_count (idx + 1) ms
                (e\<lparr>logged := logged e @ [Skipping (idx + 1) model_count (filename m)]\<rparr>)
         else (let e1 = e\<lparr>logged := logged e @ [Downloading (idx + 1) model_count (filename m)]\<rparr>;
                   e2 = e1\<lparr>files := (files e1)(model_path \<mapsto> []),
                           requested := requested e1 @ [url m]\<rparr>
               in case remote e2 (url m) of
                    None \<Rightarrow> download_loop force_update model_count (idx + 1) ms
                              (e2\<lparr>logged := logged e2 @ [Failed (filename m)]\<rparr>)
                  | Some content \<Rightarrow> download_loop force_update model_count (idx + 1) ms
                              (e2\<lparr>files := (files e2)(model_path \<mapsto> content)\<rparr>)))"

text \<open>
  \<^verbatim>\<open>download_models(force_update, model)\<close>: after the index is read and the directory
  logged, line 249 reads \<^verbatim>\<open>model_list\<close>, a name bound nowhere in the function or the
  module, which raises; the filter of lines 250-253 and the loop are not reached.
\<close>

definition download_models :: "bool \<Rightarrow> string list option \<Rightarrow> env \<Rightarrow> env \<times> (error + unit)" where
  "download_models force_update model e =
     (let r = get_models_index force_update e
      in case snd r of
           Inl err \<Rightarrow> (fst r, Inl err)
         | Inr models_json \<Rightarrow>
             ((fst r)\<lparr>logged := logged (fst r) @ [StoringModels]\<rparr>, Inl NameError))"

text \<open>
  A classifier with at least one class, and one weight vector and one intercept per class.
\<close>

definition wf_classifier :: "sgd_classifier \<Rightarrow> bool" where
  "wf_classifier clf \<longleftrightarrow>
     classes clf \<noteq> [] \<and> length (coef clf) = length (classes clf) \<and>
     length (intercept clf) = length (classes clf)"

section \<open>Examples\<close>

text \<open>
  The model of the specification's end-to-end example: classes A, B, C over the genes
  g1, g2 with weights (1, 0), (0, 1), (-1, -1) and intercepts 0; the scaler has means
  1, 2 and scales 1, 2.
\<close>

definition example_model :: model where
  "example_model =
     \<lparr>classifier = \<lparr>features = [''g1'', ''g2''], coef = [[1, 0], [0, 1], [- 1, - 1]],
                    intercept = [0, 0, 0], classes = [''A'', ''B'', ''C''], n_features_in = 2\<rparr>,
      scaler = \<lparr>scaler_mean = [1, 2], scaler_scale = [1, 2]\<rparr>,
      description = []\<rparr>"

text \<open>One cell measured on g2, g1 and a gene unknown to the model, in this order.\<close>

definition example_input :: classifier_obj where
  "example_input =
     \<lparr>indata = [[4, 3, 7]], indata_genes = [''g2'', ''g1'', ''g9''], obs_names = [''cell1''],
      model_ref = 0\<rparr>"

text \<open>One cell measured on two genes unknown to the model.\<close>

definition disjoint_input :: classifier_obj where
  "disjoint_input =
     \<lparr>indata = [[5, 6]], indata_genes = [''h1'', ''h2''], obs_names = [''cell1''], model_ref = 0\<rparr>"

text \<open>A first input, measured on g2 only, and a store holding the example model.\<close>

definition first_input :: classifier_obj where
  "first_input = \<lparr>indata = [[4]], indata_genes = [''g2''], obs_names = [''cell0''], model_ref = 0\<rparr>"

definition example_store :: store where
  "example_store = (\<lambda>a. example_model)"

text \<open>The example model after \<^verbatim>\<open>celltype\<close> has run on the first input.\<close>

definition overwritten_model :: model where
  "overwritten_model =
     \<lparr>classifier = \<lparr>features = [''g2''], coef = [[0], [1], [- 1]],
                    intercept = [0, 0, 0], classes = [''A'', ''B'', ''C''], n_features_in = 1\<rparr>,
      scaler = \<lparr>scaler_mean = [1, 2], scaler_scale = [1, 2]\<rparr>,
      description = []\<rparr>"



text \<open>
  An index of two models, none of them on disk; the request for the first model fails.
\<close>

definition example_index :: "model_entry list" where
  "example_index =
     [\<lparr>filename = ''A.pkl'', url = ''https://example.org/A.pkl''\<rparr>,
      \<lparr>filename = ''B.pkl'', url = ''https://example.org/B.pkl''\<rparr>]"

definition example_env :: env where
  "example_env =
     \<lparr>files = Map.empty, index_json = Index example_index, remote_index = None,
      remote = (\<lambda>u. if u = ''https://example.org/B.pkl'' then Some ''model B'' else None),
      requested = [], logged = []\<rparr>"

section \<open>Properties of the array primitives\<close>

lemma map_nth_filter_upt:
  "map ((!) xs) (filter (\<lambda>i. P (xs ! i)) [0..<length xs]) = filter P xs"
proof -
  have "filter P xs = filter P (map ((!) xs) [0..<length xs])"
    by (simp add: map_nth)
  also have "\<dots> = map ((!) xs) (filter (P \<circ> (!) xs) [0..<length xs])"
    by (simp only: filter_map)
  finally show ?thesis by (simp add: comp_def)
qed

lemma where_true_isin:
  "where_true (isin xs ys) = filter (\<lambda>i. xs ! i \<in> set ys) [0..<length xs]"
  unfolding where_true_def isin_def
  by (rule filter_cong) auto

lemma where_true_bound: "i \<in> set (where_true bs) \<Longrightarrow> i < length bs"
  by (simp add: where_true_def)

lemma take_idx_where_true_isin:
  "take_idx xs (where_true (isin xs ys)) = Inr (filter (\<lambda>x. x \<in> set ys) xs)"
proof -
  have "\<forall>i \<in> set (where_true (isin xs ys)). i < length xs"
    using where_true_bound [of _ "isin xs ys"] by (simp add: isin_def)
  then show ?thesis
    by (simp add: take_idx_def where_true_isin map_nth_filter_upt [of xs "\<lambda>x. x \<in> set ys"])
qed

lemma filter_eq_distinct: "distinct xs \<Longrightarrow> g \<in> set xs \<Longrightarrow> filter (\<lambda>x. x = g) xs = [g]"
  by (induction xs) (auto simp: filter_empty_conv)

lemma positions_singleton:
  assumes "distinct feats" "g \<in> set feats"
  shows "\<exists>i. filter (\<lambda>i. feats ! i = g) [0..<length feats] = [i] \<and> i < length feats \<and> feats ! i = g"
proof -
  let ?ps = "filter (\<lambda>i. feats ! i = g) [0..<length feats]"
  have "map ((!) feats) ?ps = filter (\<lambda>x. x = g) feats"
    by (rule map_nth_filter_upt)
  then have "length ?ps = 1"
    using filter_eq_distinct [OF assms] by (metis length_map length_Cons list.size(3) One_nat_def)
  then obtain i where i: "?ps = [i]"
    by (cases ?ps) auto
  then have "i \<in> set ?ps" by simp
  then have "i < length feats \<and> feats ! i = g" by simp
  with i show ?thesis by blast
qed

lemma positions_bound: "i \<in> set (positions feats genes) \<Longrightarrow> i < length feats"
  by (auto simp: positions_def)

lemma positions_names:
  "distinct feats \<Longrightarrow> set genes \<subseteq> set feats \<Longrightarrow> map ((!) feats) (positions feats genes) = genes"
proof (induction genes)
  case Nil
  then show ?case by (simp add: positions_def)
next
  case (Cons g genes)
  then obtain i where "filter (\<lambda>i. feats ! i = g) [0..<length feats] = [i]" "feats ! i = g"
    using positions_singleton [of feats g] by auto
  with Cons show ?case by (simp add: positions_def)
qed

lemma positions_length:
  "distinct feats \<Longrightarrow> set genes \<subseteq> set feats \<Longrightarrow> length (positions feats genes) = length genes"
  using positions_names [of feats genes] by (metis length_map)

lemma positions_distinct:
  "distinct feats \<Longrightarrow> set genes \<subseteq> set feats \<Longrightarrow> distinct genes \<Longrightarrow> distinct (positions feats genes)"
  using positions_names [of feats genes] by (metis distinct_map)

lemma loc_index_positions:
  "set genes \<subseteq> set feats \<Longrightarrow> loc_index feats genes = Inr (positions feats genes)"
  by (auto simp: loc_index_def)


lemma argmax_less: "xs \<noteq> [] \<Longrightarrow> argmax xs < length xs"
  by (induction xs rule: argmax.induct) (auto simp: Let_def)

lemma argmax_ge: "j < length xs \<Longrightarrow> xs ! j \<le> xs ! argmax xs"
proof (induction xs arbitrary: j rule: argmax.induct)
  case 1
  then show ?case by simp
next
  case (2 x)
  then show ?case by simp
next
  case (3 x y ys)
  show ?case
  proof (cases j)
    case 0
    then show ?thesis by (auto simp: Let_def)
  next
    case (Suc j')
    with 3 have "(y # ys) ! j' \<le> (y # ys) ! argmax (y # ys)" by simp
    with Suc show ?thesis by (auto simp: Let_def)
  qed
qed

lemma argmax_first: "j < argmax xs \<Longrightarrow> xs ! j < xs ! argmax xs"
proof (induction xs arbitrary: j rule: argmax.induct)
  case 1
  then show ?case by simp
next
  case (2 x)
  then show ?case by simp
next
  case (3 x y ys)
  show ?case
  proof (cases j)
    case 0
    with 3 show ?thesis by (auto simp: Let_def split: if_splits)
  next
    case (Suc j')
    with 3 have "(y # ys) ! j' < (y # ys) ! argmax (y # ys)" by (simp add: Let_def split: if_splits)
    with 3 Suc show ?thesis by (auto simp: Let_def split: if_splits)
  qed
qed


section \<open>Best-match labels\<close>

lemma length_decision_function: "length (decision_function clf X) = length X"
  by (simp add: decision_function_def)

lemma decision_function_row:
  "row \<in> set (decision_function clf X) \<Longrightarrow> length row = min (length (coef clf)) (length (intercept clf))"
  by (auto simp: decision_function_def)

lemma decision_function_row_wf:
  "wf_classifier clf \<Longrightarrow> row \<in> set (decision_function clf X)
     \<Longrightarrow> row \<noteq> [] \<and> length row = length (classes clf)"
  using decision_function_row [of row clf X] by (auto simp: wf_classifier_def)

lemma best_match_labels_wf:
  assumes "\<forall>row \<in> set scores. row \<noteq> [] \<and> length row \<le> length cls"
  shows "best_match_labels cls scores = Inr (map (\<lambda>row. cls ! argmax row) scores)"
proof -
  have "\<forall>i \<in> set (map argmax scores). i < length cls"
  proof
    fix i assume "i \<in> set (map argmax scores)"
    then obtain row where row: "row \<in> set scores" "i = argmax row" by auto
    with assms have "row \<noteq> []" "length row \<le> length cls" by auto
    with row argmax_less [of row] show "i < length cls" by simp
  qed
  moreover have "\<not> (\<exists>row \<in> set scores. row = [])" using assms by auto
  ultimately show ?thesis
    by (simp add: best_match_labels_def take_idx_def comp_def)
qed

lemma predict_best_match_wf:
  assumes "wf_classifier (classifier m)"
  shows "predict_labels_and_prob m X ''best match'' p_thres
           = Inr (decision_function (classifier m) X,
                  map (map expit) (decision_function (classifier m) X),
                  map (\<lambda>row. classes (classifier m) ! argmax row) (decision_function (classifier m) X))"
proof -
  have "\<forall>row \<in> set (decision_function (classifier m) X).
          row \<noteq> [] \<and> length row \<le> length (classes (classifier m))"
    using decision_function_row_wf [OF assms] by auto
  then show ?thesis
    by (simp add: predict_labels_and_prob_def best_match_labels_wf Let_def)
qed

lemma argmax_strict: 
  assumes "j < length xs" "\<forall>k < length xs. k \<noteq> j \<longrightarrow> xs ! k < xs ! j"
  shows "argmax xs = j"
proof (rule ccontr)
  assume ne: "argmax xs \<noteq> j"
  from assms have "xs \<noteq> []" by auto
  then have "argmax xs < length xs" by (rule argmax_less)
  with assms ne have "xs ! argmax xs < xs ! j" by simp
  moreover have "xs ! j \<le> xs ! argmax xs" using assms(1) by (rule argmax_ge)
  ultimately show False by simp
qed

lemma argmax_first_max:
  assumes "j < length xs" "\<forall>k < length xs. xs ! k \<le> xs ! j" "\<forall>k < j. xs ! k < xs ! j"
  shows "argmax xs = j"
proof -
  from assms have "xs \<noteq> []" by auto
  then have a: "argmax xs < length xs" by (rule argmax_less)
  have "\<not> argmax xs < j"
  proof
    assume "argmax xs < j"
    with assms(3) have "xs ! argmax xs < xs ! j" by simp
    moreover have "xs ! j \<le> xs ! argmax xs" using assms(1) by (rule argmax_ge)
    ultimately show False by simp
  qed
  moreover have "\<not> j < argmax xs"
  proof
    assume "j < argmax xs"
    then have "xs ! j < xs ! argmax xs" by (rule argmax_first)
    moreover have "xs ! argmax xs \<le> xs ! j" using assms(2) a by simp
    ultimately show False by simp
  qed
  ultimately show ?thesis by simp
qed

lemma example_scores: "decision_function (classifier example_model) [[2, 0]] = [[2, 0, - 2]]"
  by (simp add: decision_function_def example_model_def dot_def)


text \<open>
  C3. In best-match mode \<^verbatim>\<open>predict_labels_and_prob\<close> returns, for a classifier with one
  weight vector and one intercept per class, one label per cell, each a class name; and
  for every cell whose score row has a class scoring strictly above all others, the label
  is that class.
\<close>

theorem best_match_one_label_argmax:
  assumes "wf_classifier (classifier m)"
  shows "\<exists>labs. predict_labels_and_prob m X ''best match'' p_thres
            = Inr (decision_function (classifier m) X,
                   map (map expit) (decision_function (classifier m) X), labs)
          \<and> length labs = length X
          \<and> (\<forall>i < length X. labs ! i \<in> set (classes (classifier m)))
          \<and> (\<forall>i < length X. \<forall>j < length (decision_function (classifier m) X ! i).
                (\<forall>k < length (decision_function (classifier m) X ! i). k \<noteq> j \<longrightarrow>
                    decision_function (classifier m) X ! i ! k < decision_function (classifier m) X ! i ! j)
                \<longrightarrow> labs ! i = classes (classifier m) ! j)"
proof -
  let ?S = "decision_function (classifier m) X"
  let ?labs = "map (\<lambda>row. classes (classifier m) ! argmax row) ?S"
  have "predict_labels_and_prob m X ''best match'' p_thres = Inr (?S, map (map expit) ?S, ?labs)"
    using assms by (rule predict_best_match_wf)
  moreover have "length ?labs = length X"
    by (simp add: length_decision_function)
  moreover have "\<forall>i < length X. ?labs ! i \<in> set (classes (classifier m))"
  proof (intro allI impI)
    fix i assume i: "i < length X"
    then have "?S ! i \<in> set ?S" by (simp add: length_decision_function)
    then have "?S ! i \<noteq> [] \<and> length (?S ! i) = length (classes (classifier m))"
      using decision_function_row_wf [OF assms] by blast
    then have "argmax (?S ! i) < length (classes (classifier m))"
      using argmax_less [of "?S ! i"] by simp
    with i show "?labs ! i \<in> set (classes (classifier m))"
      by (simp add: length_decision_function)
  qed
  moreover have "\<forall>i < length X. \<forall>j < length (?S ! i).
      (\<forall>k < length (?S ! i). k \<noteq> j \<longrightarrow> ?S ! i ! k < ?S ! i ! j) \<longrightarrow> ?labs ! i = classes (classifier m) ! j"
    by (simp add: length_decision_function argmax_strict)
  ultimately show ?thesis by blast
qed

theorem best_match_one_label_argmax_witness:
  "wf_classifier (classifier example_model) \<and>
   predict_labels_and_prob example_model [[2, 0]] ''best match'' (1 / 2)
     = Inr ([[2, 0, - 2]], [[expit 2, expit 0, expit (- 2)]], [''A''])"
proof -
  have wf: "wf_classifier (classifier example_model)"
    by (simp add: wf_classifier_def example_model_def)
  obtain labs where r: "predict_labels_and_prob example_model [[2, 0]] ''best match'' (1 / 2)
        = Inr ([[2, 0, - 2]], [[expit 2, expit 0, expit (- 2)]], labs)"
    and len: "length labs = 1"
    and "\<forall>i < 1. labs ! i \<in> set (classes (classifier example_model))"
    and best: "\<forall>j < 3. (\<forall>k < 3. k \<noteq> j \<longrightarrow> [2, 0, - 2 :: real] ! k < [2, 0, - 2] ! j)
                 \<longrightarrow> labs ! 0 = [''A'', ''B'', ''C''] ! j"
    using best_match_one_label_argmax [OF wf, of "[[2, 0]]" "1 / 2"]
    by (auto simp: example_scores) (simp add: example_model_def)
  have "\<forall>k < 3. k \<noteq> 0 \<longrightarrow> [2, 0, - 2 :: real] ! k < [2, 0, - 2] ! 0"
    by (auto simp: less_Suc_eq numeral_3_eq_3)
  with best have "labs ! 0 = ''A''" by force
  with len have "labs = [''A'']" by (cases labs) auto
  with r wf show ?thesis by simp
qed

text \<open>
  C10. In best-match mode, when several classes share the greatest score of a cell, the
  cell still gets one label: the class that comes first in \<^verbatim>\<open>classes_\<close> among those
  holding the greatest score.
\<close>

theorem best_match_tie_first_class:
  assumes "wf_classifier (classifier m)"
  shows "\<exists>labs. predict_labels_and_prob m X ''best match'' p_thres
            = Inr (decision_function (classifier m) X,
                   map (map expit) (decision_function (classifier m) X), labs)
          \<and> length labs = length X
          \<and> (\<forall>i < length X. \<forall>j < length (decision_function (classifier m) X ! i).
                (\<forall>k < length (decision_function (classifier m) X ! i).
                    decision_function (classifier m) X ! i ! k \<le> decision_function (classifier m) X ! i ! j)
                \<and> (\<forall>k < j.
                    decision_function (classifier m) X ! i ! k < decision_function (classifier m) X ! i ! j)
                \<longrightarrow> labs ! i = classes (classifier m) ! j)"
proof -
  let ?S = "decision_function (classifier m) X"
  let ?labs = "map (\<lambda>row. classes (classifier m) ! argmax row) ?S"
  have "predict_labels_and_prob m X ''best match'' p_thres = Inr (?S, map (map expit) ?S, ?labs)"
    using assms by (rule predict_best_match_wf)
  moreover have "length ?labs = length X"
    by (simp add: length_decision_function)
  moreover have "\<forall>i < length X. \<forall>j < length (?S ! i).
      (\<forall>k < length (?S ! i). ?S ! i ! k \<le> ?S ! i ! j) \<and> (\<forall>k < j. ?S ! i ! k < ?S ! i ! j)
        \<longrightarrow> ?labs ! i = classes (classifier m) ! j"
    by (simp add: length_decision_function argmax_first_max)
  ultimately show ?thesis by blast
qed

lemma tie_scores: "decision_function (classifier example_model) [[1, 1]] = [[1, 1, - 2]]"
  by (simp add: decision_function_def example_model_def dot_def)

theorem best_match_tie_first_class_witness:
  "wf_classifier (classifier example_model) \<and>
   decision_function (classifier example_model) [[1, 1]] = [[1, 1, - 2]] \<and>
   predict_labels_and_prob example_model [[1, 1]] ''best match'' (1 / 2)
     = Inr ([[1, 1, - 2]], [[expit 1, expit 1, expit (- 2)]], [''A''])"
proof -
  have wf: "wf_classifier (classifier example_model)"
    by (simp add: wf_classifier_def example_model_def)
  obtain labs where r: "predict_labels_and_prob example_model [[1, 1]] ''best match'' (1 / 2)
        = Inr ([[1, 1, - 2]], [[expit 1, expit 1, expit (- 2)]], labs)"
    and len: "length labs = 1"
    and best: "\<forall>j < 3. (\<forall>k < 3. [1, 1, - 2 :: real] ! k \<le> [1, 1, - 2] ! j)
                 \<and> (\<forall>k < j. [1, 1, - 2 :: real] ! k < [1, 1, - 2] ! j)
                 \<longrightarrow> labs ! 0 = [''A'', ''B'', ''C''] ! j"
    using best_match_tie_first_class [OF wf, of "[[1, 1]]" "1 / 2"]
    by (auto simp: tie_scores) (simp add: example_model_def)
  have "\<forall>k < 3. [1, 1, - 2 :: real] ! k \<le> [1, 1, - 2] ! 0"
    by (auto simp: less_Suc_eq numeral_3_eq_3)
  with best have "labs ! 0 = ''A''" by force
  with len have "labs = [''A'']" by (cases labs) auto
  with r wf show ?thesis by (simp add: tie_scores)
qed

section \<open>Gene alignment\<close>

lemma kept_columns_bound: "i \<in> set (kept_columns m c) \<Longrightarrow> i < length (indata_genes c)"
  using where_true_bound [of i "isin (indata_genes c) (features (classifier m))"]
  by (simp add: kept_columns_def isin_def)

lemma kept_genes_columns: "map ((!) (indata_genes c)) (kept_columns m c) = kept_genes m c"
  unfolding kept_columns_def kept_genes_def where_true_isin
  by (rule map_nth_filter_upt)

lemma length_kept_columns: "length (kept_columns m c) = length (kept_genes m c)"
  using kept_genes_columns [of c m] by (metis length_map)

lemma kept_genes_subset: "set (kept_genes m c) \<subseteq> set (features (classifier m))"
  by (auto simp: kept_genes_def)

lemma match_genes_wf:
  assumes "wf_input m c"
  shows "match_genes m c =
           (c\<lparr>indata := map (\<lambda>row. map ((!) row) (kept_columns m c)) (indata c),
              indata_genes := kept_genes m c\<rparr>,
            Inr (positions (features (classifier m)) (kept_genes m c)))"
proof -
  have rows: "\<forall>row \<in> set (indata c). \<forall>i \<in> set (kept_columns m c). i < length row"
    using assms kept_columns_bound [of _ m c] by (auto simp: wf_input_def)
  have cols: "take_cols (indata c) (kept_columns m c)
                = Inr (map (\<lambda>row. map ((!) row) (kept_columns m c)) (indata c))"
    using rows by (simp add: take_cols_def)
  have genes: "take_idx (indata_genes c) (kept_columns m c) = Inr (kept_genes m c)"
    unfolding kept_columns_def kept_genes_def by (rule take_idx_where_true_isin)
  have loc: "loc_index (features (classifier m)) (kept_genes m c)
               = Inr (positions (features (classifier m)) (kept_genes m c))"
    using kept_genes_subset by (rule loc_index_positions)
  show ?thesis
    using cols genes loc by (simp add: match_genes_def Let_def kept_columns_def [symmetric])
qed

lemma lr_idx_of_wf:
  "wf_input m c \<Longrightarrow> lr_idx_of m c = positions (features (classifier m)) (kept_genes m c)"
  by (simp add: lr_idx_of_def match_genes_wf)

lemma length_lr_idx_of: "wf_input m c \<Longrightarrow> length (lr_idx_of m c) = length (kept_genes m c)"
  using positions_length [OF _ kept_genes_subset, of m c]
  by (simp add: lr_idx_of_wf wf_input_def)

lemma lr_idx_of_bound:
  "wf_input m c \<Longrightarrow> i \<in> set (lr_idx_of m c) \<Longrightarrow> i < length (features (classifier m))"
  using positions_bound by (simp add: lr_idx_of_wf)

lemma lr_idx_of_names:
  "wf_input m c \<Longrightarrow> map ((!) (features (classifier m))) (lr_idx_of m c) = kept_genes m c"
  using positions_names [OF _ kept_genes_subset, of m c]
  by (simp add: lr_idx_of_wf wf_input_def)

lemma scale_indata_wf:
  assumes wf: "wf_input m c"
  shows "scale_indata m (lr_idx_of m c)
           (c\<lparr>indata := map (\<lambda>row. map ((!) row) (kept_columns m c)) (indata c),
              indata_genes := kept_genes m c\<rparr>)
         = (c\<lparr>indata := rescaled m c, indata_genes := kept_genes m c\<rparr>, Inr ())"
proof -
  let ?L = "lr_idx_of m c"
  let ?k = "length (kept_genes m c)"
  let ?X0 = "map (\<lambda>row. map ((!) row) (kept_columns m c)) (indata c)"
  let ?means = "map ((!) (scaler_mean (scaler m))) ?L"
  let ?sds = "map ((!) (scaler_scale (scaler m))) ?L"
  let ?X1 = "map (\<lambda>row. map (\<lambda>j. row ! j - ?means ! j) [0..<?k]) ?X0"
  let ?X2 = "map (\<lambda>row. map (\<lambda>j. row ! j / ?sds ! j) [0..<?k]) ?X1"
  have len: "length ?L = ?k" using wf by (rule length_lr_idx_of)
  have bound: "\<forall>i \<in> set ?L. i < length (features (classifier m))"
    using lr_idx_of_bound [OF wf] by blast
  have means: "take_idx (scaler_mean (scaler m)) ?L = Inr ?means"
    using bound wf by (simp add: take_idx_def wf_input_def)
  have sds: "take_idx (scaler_scale (scaler m)) ?L = Inr ?sds"
    using bound wf by (simp add: take_idx_def wf_input_def)
  have b1: "broadcast_rows (\<lambda>a b. a - b) ?k ?X0 ?means = Inr (?k, ?X1)"
    using len by (simp add: broadcast_rows_def)
  have b2: "broadcast_rows (\<lambda>a b. a / b) ?k ?X1 ?sds = Inr (?k, ?X2)"
    using len by (simp add: broadcast_rows_def)
  have "clip10 ?X2 = rescaled m c"
    using len by (simp add: clip10_def rescaled_def comp_def Let_def length_kept_columns)
  then show ?thesis
    using means sds b1 b2 by (simp add: scale_indata_def)
qed

lemma subset_model_wf:
  assumes wf: "wf_input m c"
  shows "subset_model m (lr_idx_of m c)
         = (m\<lparr>classifier := (classifier m)\<lparr>n_features_in := length (kept_genes m c),
                 features := kept_genes m c,
                 coef := map (\<lambda>w. map ((!) w) (lr_idx_of m c)) (coef (classifier m))\<rparr>\<rparr>, Inr ())"
proof -
  let ?L = "lr_idx_of m c"
  have bound: "\<forall>i \<in> set ?L. i < length (features (classifier m))"
    using lr_idx_of_bound [OF wf] by blast
  have feats: "take_idx (features (classifier m)) ?L = Inr (kept_genes m c)"
    using bound lr_idx_of_names [OF wf] by (simp add: take_idx_def)
  have cf: "take_cols (coef (classifier m)) ?L
              = Inr (map (\<lambda>w. map ((!) w) ?L) (coef (classifier m)))"
    using bound wf by (simp add: take_cols_def wf_input_def)
  show ?thesis
    using feats cf length_lr_idx_of [OF wf] by (simp add: subset_model_def Let_def)
qed

lemma celltype_run_wf:
  assumes wf: "wf_input m c"
  shows "celltype_run m c =
           ((aligned_model m c, c\<lparr>indata := rescaled m c, indata_genes := kept_genes m c\<rparr>),
            (case predict_labels_and_prob (aligned_model m c) (rescaled m c) ''best match'' (1 / 2) of
               Inl e \<Rightarrow> Inl e | Inr triple \<Rightarrow> Inl TooManyValuesToUnpack))"
proof -
  have m1: "match_genes m c =
           (c\<lparr>indata := map (\<lambda>row. map ((!) row) (kept_columns m c)) (indata c),
              indata_genes := kept_genes m c\<rparr>, Inr (lr_idx_of m c))"
    using wf by (simp add: match_genes_wf lr_idx_of_wf)
  show ?thesis
    unfolding celltype_run_def
    by (simp add: m1 scale_indata_wf [OF wf] subset_model_wf [OF wf] aligned_model_def Let_def
          split: sum.splits)
qed

lemma wf_example: "wf_input example_model example_input"
  by (simp add: wf_input_def example_model_def example_input_def)

lemma kept_columns_example: "kept_columns example_model example_input = [0, 1]"
  by (simp add: kept_columns_def where_true_def isin_def example_model_def example_input_def
        upt_conv_Cons)

lemma kept_genes_example: "kept_genes example_model example_input = [''g2'', ''g1'']"
  by (simp add: kept_genes_def example_model_def example_input_def)

lemma lr_idx_example: "lr_idx_of example_model example_input = [1, 0]"
  by (simp add: lr_idx_of_wf [OF wf_example] kept_genes_example positions_def)
     (simp add: example_model_def upt_conv_Cons)

lemma rescaled_example: "rescaled example_model example_input = [[1, 2]]"
  by (simp add: rescaled_def lr_idx_example kept_columns_example upt_conv_Cons)
     (simp add: example_model_def example_input_def)

text \<open>
  C1 as stated fails: the genes \<^verbatim>\<open>celltype\<close> keeps, and the feature list it writes into the
  model, are in the order of the input's gene list. For an input listing g2 before g1 and a
  model listing g1 before g2, the genes used are g2, g1.
\<close>

theorem alignment_model_order_counterexample:
  "indata_genes (snd (fst (celltype_run example_model example_input))) = [''g2'', ''g1''] \<and>
   features (classifier (fst (fst (celltype_run example_model example_input)))) = [''g2'', ''g1''] \<and>
   model_order_intersection (features (classifier example_model)) (indata_genes example_input)
     = [''g1'', ''g2''] \<and>
   indata_genes (snd (fst (celltype_run example_model example_input)))
     \<noteq> model_order_intersection (features (classifier example_model)) (indata_genes example_input)"
  by (simp add: celltype_run_wf [OF wf_example] kept_genes_example aligned_model_def
        model_order_intersection_def)
     (simp add: example_model_def example_input_def)

text \<open>
  C1, amended. On a well-formed input, the genes \<^verbatim>\<open>celltype\<close> uses for scoring are the
  input's genes that are model features, in the input's order; as a set they are the
  intersection of the two gene lists. The feature list written into the model equals this
  list, position \<open>j\<close> of it stands for input column \<open>kept_columns ! j\<close> and model position
  \<open>lr_idx ! j\<close>, both carrying the same gene name; the matching is one-to-one when the
  input's gene names are pairwise different; the weight matrix is re-indexed by \<open>lr_idx\<close>,
  and the matrix scored is the input rescaled with the means and scales at \<open>lr_idx\<close>.
\<close>

theorem celltype_alignment_input_order:
  assumes wf: "wf_input m c" and run: "celltype_run m c = ((m', c'), r)"
  shows "indata_genes c' = filter (\<lambda>g. g \<in> set (features (classifier m))) (indata_genes c)
       \<and> set (indata_genes c') = set (features (classifier m)) \<inter> set (indata_genes c)
       \<and> features (classifier m') = indata_genes c'
       \<and> n_features_in (classifier m') = length (indata_genes c')
       \<and> length (kept_columns m c) = length (indata_genes c')
       \<and> length (lr_idx_of m c) = length (indata_genes c')
       \<and> (\<forall>j < length (indata_genes c').
             kept_columns m c ! j < length (indata_genes c)
           \<and> indata_genes c ! (kept_columns m c ! j) = indata_genes c' ! j
           \<and> lr_idx_of m c ! j < length (features (classifier m))
           \<and> features (classifier m) ! (lr_idx_of m c ! j) = indata_genes c' ! j)
       \<and> distinct (kept_columns m c)
       \<and> (distinct (indata_genes c) \<longrightarrow> distinct (lr_idx_of m c))
       \<and> coef (classifier m') = map (\<lambda>w. map ((!) w) (lr_idx_of m c)) (coef (classifier m))
       \<and> indata c' = rescaled m c"
proof -
  from run celltype_run_wf [OF wf]
  have m': "m' = aligned_model m c"
    and c': "c' = c\<lparr>indata := rescaled m c, indata_genes := kept_genes m c\<rparr>"
    by simp_all
  have g: "indata_genes c' = kept_genes m c" using c' by simp
  have 1: "indata_genes c' = filter (\<lambda>g. g \<in> set (features (classifier m))) (indata_genes c)"
    using g by (simp add: kept_genes_def)
  have 2: "set (indata_genes c') = set (features (classifier m)) \<inter> set (indata_genes c)"
    using 1 by auto
  have 3: "features (classifier m') = indata_genes c'"
    using m' g by (simp add: aligned_model_def)
  have 4: "n_features_in (classifier m') = length (indata_genes c')"
    using m' g by (simp add: aligned_model_def)
  have 5: "length (kept_columns m c) = length (indata_genes c')"
    using g by (simp add: length_kept_columns)
  have 6: "length (lr_idx_of m c) = length (indata_genes c')"
    using g length_lr_idx_of [OF wf] by simp
  have 7: "\<forall>j < length (indata_genes c').
             kept_columns m c ! j < length (indata_genes c)
           \<and> indata_genes c ! (kept_columns m c ! j) = indata_genes c' ! j
           \<and> lr_idx_of m c ! j < length (features (classifier m))
           \<and> features (classifier m) ! (lr_idx_of m c ! j) = indata_genes c' ! j"
  proof (intro allI impI)
    fix j assume j: "j < length (indata_genes c')"
    have a: "kept_columns m c ! j < length (indata_genes c)"
      using j 5 kept_columns_bound [of "kept_columns m c ! j" m c] by simp
    have "map ((!) (indata_genes c)) (kept_columns m c) ! j = kept_genes m c ! j"
      by (simp only: kept_genes_columns)
    then have b: "indata_genes c ! (kept_columns m c ! j) = indata_genes c' ! j"
      using j 5 g by simp
    have c: "lr_idx_of m c ! j < length (features (classifier m))"
      using j 6 lr_idx_of_bound [OF wf, of "lr_idx_of m c ! j"] by simp
    have "map ((!) (features (classifier m))) (lr_idx_of m c) ! j = kept_genes m c ! j"
      by (simp only: lr_idx_of_names [OF wf])
    then have d: "features (classifier m) ! (lr_idx_of m c ! j) = indata_genes c' ! j"
      using j 6 g by simp
    from a b c d show "kept_columns m c ! j < length (indata_genes c)
           \<and> indata_genes c ! (kept_columns m c ! j) = indata_genes c' ! j
           \<and> lr_idx_of m c ! j < length (features (classifier m))
           \<and> features (classifier m) ! (lr_idx_of m c ! j) = indata_genes c' ! j"
      by blast
  qed
  have 8: "distinct (kept_columns m c)"
    by (simp add: kept_columns_def where_true_def)
  have 9: "distinct (indata_genes c) \<longrightarrow> distinct (lr_idx_of m c)"
  proof
    assume "distinct (indata_genes c)"
    then have "distinct (kept_genes m c)" by (simp add: kept_genes_def)
    then show "distinct (lr_idx_of m c)"
      using positions_distinct [OF _ kept_genes_subset, of m c] wf
      by (simp add: lr_idx_of_wf wf_input_def)
  qed
  have 10: "coef (classifier m') = map (\<lambda>w. map ((!) w) (lr_idx_of m c)) (coef (classifier m))"
    using m' by (simp add: aligned_model_def)
  have 11: "indata c' = rescaled m c" using c' by simp
  from 1 2 3 4 5 6 7 8 9 10 11 show ?thesis by blast
qed

theorem celltype_alignment_input_order_witness:
  "wf_input example_model example_input \<and>
   indata_genes (snd (fst (celltype_run example_model example_input))) = [''g2'', ''g1''] \<and>
   features (classifier (fst (fst (celltype_run example_model example_input)))) = [''g2'', ''g1''] \<and>
   coef (classifier (fst (fst (celltype_run example_model example_input))))
     = [[0, 1], [1, 0], [- 1, - 1]] \<and>
   indata (snd (fst (celltype_run example_model example_input))) = [[1, 2]]"
proof -
  obtain m' c' r where run: "celltype_run example_model example_input = ((m', c'), r)"
    by (metis surj_pair)
  from celltype_alignment_input_order [OF wf_example run]
  have "indata_genes c' = [''g2'', ''g1'']" "features (classifier m') = [''g2'', ''g1'']"
    "coef (classifier m') = [[0, 1], [1, 0], [- 1, - 1]]" "indata c' = [[1, 2]]"
    by (simp_all add: lr_idx_example rescaled_example)
       (simp_all add: example_model_def example_input_def)
  with run wf_example show ?thesis by simp
qed

section \<open>No overlap between model and input\<close>

lemma kept_columns_disjoint:
  assumes "set (features (classifier m)) \<inter> set (indata_genes c) = {}"
  shows "kept_columns m c = []"
proof -
  have "\<forall>i < length (indata_genes c). indata_genes c ! i \<notin> set (features (classifier m))"
    using assms nth_mem by blast
  then show ?thesis
    by (simp add: kept_columns_def where_true_isin filter_empty_conv)
qed

lemma match_genes_disjoint:
  assumes "set (features (classifier m)) \<inter> set (indata_genes c) = {}"
  shows "match_genes m c = (c\<lparr>indata := map (\<lambda>row. []) (indata c), indata_genes := []\<rparr>, Inr [])"
  using kept_columns_disjoint [OF assms]
  by (simp add: match_genes_def kept_columns_def [symmetric] take_cols_def take_idx_def
        loc_index_def positions_def Let_def)

lemma scale_indata_empty:
  "scale_indata m [] (c\<lparr>indata := map (\<lambda>row. []) X, indata_genes := []\<rparr>)
     = (c\<lparr>indata := map (\<lambda>row. []) X, indata_genes := []\<rparr>, Inr ())"
  by (simp add: scale_indata_def take_idx_def broadcast_rows_def clip10_def comp_def)

lemma subset_model_empty:
  "subset_model m []
     = (m\<lparr>classifier := (classifier m)\<lparr>n_features_in := 0, features := [],
             coef := map (\<lambda>w. []) (coef (classifier m))\<rparr>\<rparr>, Inr ())"
  by (simp add: subset_model_def take_idx_def take_cols_def Let_def)

text \<open>
  C7, amended. When no gene of the input is a model feature, \<^verbatim>\<open>celltype\<close> fails with an
  error, but not before it has gone on to rescale: gene matching returns an empty index
  list and raises nothing, rescaling runs on the matrix without columns, the model's
  classifier is overwritten with an empty feature list, weight rows without entries and a
  feature count of zero, and \<^verbatim>\<open>predict_labels_and_prob\<close> is called on the matrix without
  columns. The error of the method is the one this call raises or, if it returns, the one
  raised on unpacking its result.
\<close>

theorem zero_overlap_fails_after_rescaling:
  assumes "set (features (classifier m)) \<inter> set (indata_genes c) = {}"
  shows "match_genes m c = (c\<lparr>indata := map (\<lambda>row. []) (indata c), indata_genes := []\<rparr>, Inr [])
       \<and> scale_indata m [] (c\<lparr>indata := map (\<lambda>row. []) (indata c), indata_genes := []\<rparr>)
           = (c\<lparr>indata := map (\<lambda>row. []) (indata c), indata_genes := []\<rparr>, Inr ())
       \<and> subset_model m []
           = (m\<lparr>classifier := (classifier m)\<lparr>n_features_in := 0, features := [],
                   coef := map (\<lambda>w. []) (coef (classifier m))\<rparr>\<rparr>, Inr ())
       \<and> fst (celltype_run m c)
           = (m\<lparr>classifier := (classifier m)\<lparr>n_features_in := 0, features := [],
                   coef := map (\<lambda>w. []) (coef (classifier m))\<rparr>\<rparr>,
              c\<lparr>indata := map (\<lambda>row. []) (indata c), indata_genes := []\<rparr>)
       \<and> snd (celltype_run m c)
           = (case predict_labels_and_prob
                      (m\<lparr>classifier := (classifier m)\<lparr>n_features_in := 0, features := [],
                           coef := map (\<lambda>w. []) (coef (classifier m))\<rparr>\<rparr>)
                      (map (\<lambda>row. []) (indata c)) ''best match'' (1 / 2) of
                 Inl e \<Rightarrow> Inl e | Inr triple \<Rightarrow> Inl TooManyValuesToUnpack)
       \<and> (\<exists>e. snd (celltype_run m c) = Inl e)"
proof -
  let ?m = "m\<lparr>classifier := (classifier m)\<lparr>n_features_in := 0, features := [],
                   coef := map (\<lambda>w. []) (coef (classifier m))\<rparr>\<rparr>"
  let ?c = "c\<lparr>indata := map (\<lambda>row. []) (indata c), indata_genes := []\<rparr>"
  let ?r = "case predict_labels_and_prob ?m (map (\<lambda>row. []) (indata c)) ''best match'' (1 / 2) of
              Inl e \<Rightarrow> Inl e | Inr triple \<Rightarrow> Inl TooManyValuesToUnpack"
  have 1: "match_genes m c = (?c, Inr [])"
    using assms by (rule match_genes_disjoint)
  have 2: "scale_indata m [] ?c = (?c, Inr ())"
    by (rule scale_indata_empty)
  have 3: "subset_model m [] = (?m, Inr ())"
    by (rule subset_model_empty)
  have run: "celltype_run m c = ((?m, ?c), ?r)"
    unfolding celltype_run_def
    by (simp add: 1 scale_indata_empty subset_model_empty Let_def split: sum.splits)
  have 4: "fst (celltype_run m c) = (?m, ?c)" by (simp add: run)
  have 5: "snd (celltype_run m c) = ?r" by (simp add: run)
  have 6: "\<exists>e. snd (celltype_run m c) = Inl e"
    unfolding 5 by (simp split: sum.splits)
  from 1 2 3 4 5 6 show ?thesis by (intro conjI)
qed

text \<open>
  C7 as stated fails: for an input whose genes h1, h2 are unknown to the example model,
  no stage before scoring raises; the matrix is rescaled to one row without columns and the
  model is overwritten with no features before scoring is called.
\<close>

theorem zero_overlap_counterexample:
  "set (features (classifier example_model)) \<inter> set (indata_genes disjoint_input) = {} \<and>
   snd (match_genes example_model disjoint_input) = Inr [] \<and>
   scale_indata example_model [] (fst (match_genes example_model disjoint_input))
     = (disjoint_input\<lparr>indata := [[]], indata_genes := []\<rparr>, Inr ()) \<and>
   snd (subset_model example_model []) = Inr () \<and>
   features (classifier (fst (subset_model example_model []))) = [] \<and>
   coef (classifier (fst (subset_model example_model []))) = [[], [], []] \<and>
   n_features_in (classifier (fst (subset_model example_model []))) = 0 \<and>
   fst (celltype_run example_model disjoint_input)
     = (fst (subset_model example_model []), disjoint_input\<lparr>indata := [[]], indata_genes := []\<rparr>)"
proof -
  have d: "set (features (classifier example_model)) \<inter> set (indata_genes disjoint_input) = {}"
    by (simp add: example_model_def disjoint_input_def)
  have m: "match_genes example_model disjoint_input
             = (disjoint_input\<lparr>indata := [[]], indata_genes := []\<rparr>, Inr [])"
    using match_genes_disjoint [OF d] by (simp add: disjoint_input_def)
  have s: "scale_indata example_model [] (disjoint_input\<lparr>indata := [[]], indata_genes := []\<rparr>)
             = (disjoint_input\<lparr>indata := [[]], indata_genes := []\<rparr>, Inr ())"
    using scale_indata_empty [where m = example_model and c = disjoint_input and X = "[[5, 6]]"] by simp
  have c: "coef (classifier (fst (subset_model example_model []))) = [[], [], []]"
    by (simp add: subset_model_empty) (simp add: example_model_def)
  have r: "fst (celltype_run example_model disjoint_input)
     = (fst (subset_model example_model []), disjoint_input\<lparr>indata := [[]], indata_genes := []\<rparr>)"
    unfolding celltype_run_def
    by (simp add: m s subset_model_empty Let_def split: sum.splits)
  show ?thesis
    using d m s c r by (simp add: subset_model_empty)
qed

theorem zero_overlap_fails_after_rescaling_witness:
  "set (features (classifier example_model)) \<inter> set (indata_genes disjoint_input) = {} \<and>
   fst (celltype_run example_model disjoint_input)
     = (example_model\<lparr>classifier := (classifier example_model)\<lparr>n_features_in := 0, features := [],
                    coef := [[], [], []]\<rparr>\<rparr>,
        disjoint_input\<lparr>indata := [[]], indata_genes := []\<rparr>) \<and>
   (\<exists>e. snd (celltype_run example_model disjoint_input) = Inl e)"
proof -
  have d: "set (features (classifier example_model)) \<inter> set (indata_genes disjoint_input) = {}"
    by (simp add: example_model_def disjoint_input_def)
  have cf: "map (\<lambda>w. []) (coef (classifier example_model)) = [[], [], []]"
    by (simp add: example_model_def)
  have x: "map (\<lambda>row. []) (indata disjoint_input) = [[]]"
    by (simp add: disjoint_input_def)
  note t = zero_overlap_fails_after_rescaling [OF d]
  from t have e: "\<exists>e. snd (celltype_run example_model disjoint_input) = Inl e"
    by blast
  from t have "fst (celltype_run example_model disjoint_input)
     = (example_model\<lparr>classifier := (classifier example_model)\<lparr>n_features_in := 0, features := [],
                    coef := map (\<lambda>w. []) (coef (classifier example_model))\<rparr>\<rparr>,
        disjoint_input\<lparr>indata := map (\<lambda>row. []) (indata disjoint_input), indata_genes := []\<rparr>)"
    by blast
  then have f: "fst (celltype_run example_model disjoint_input)
     = (example_model\<lparr>classifier := (classifier example_model)\<lparr>n_features_in := 0, features := [],
                    coef := [[], [], []]\<rparr>\<rparr>,
        disjoint_input\<lparr>indata := [[]], indata_genes := []\<rparr>)"
    by (simp only: cf x)
  from d f e show ?thesis by (intro conjI)
qed


section \<open>The shared model object\<close>

lemma celltype_store:
  "celltype h c = ((h(model_ref c := fst (fst (celltype_run (h (model_ref c)) c))),
                    snd (fst (celltype_run (h (model_ref c)) c))),
                   snd (celltype_run (h (model_ref c)) c))"
  by (simp add: celltype_def split: prod.splits)

text \<open>
  C8. \<^verbatim>\<open>celltype\<close> overwrites the model object it refers to: after the call on a
  well-formed input the stored model's feature list is the aligned subset, its weight
  matrix is re-indexed to it and its feature count is the subset's size, while its scaler
  is left as it was; every other object of the store is unchanged, and a second classifier
  object holding the same reference runs on the overwritten model. The witness runs a
  second input on the shared model and on a fresh one, with different results.
\<close>

theorem celltype_overwrites_shared_model:
  assumes wf: "wf_input (h (model_ref c)) c" and run: "celltype h c = ((h', c'), r)"
  shows "features (classifier (h' (model_ref c)))
           = filter (\<lambda>g. g \<in> set (features (classifier (h (model_ref c))))) (indata_genes c)
       \<and> coef (classifier (h' (model_ref c)))
           = map (\<lambda>w. map ((!) w) (lr_idx_of (h (model_ref c)) c)) (coef (classifier (h (model_ref c))))
       \<and> n_features_in (classifier (h' (model_ref c))) = length (lr_idx_of (h (model_ref c)) c)
       \<and> scaler (h' (model_ref c)) = scaler (h (model_ref c))
       \<and> (\<forall>a. a \<noteq> model_ref c \<longrightarrow> h' a = h a)
       \<and> (\<forall>c2. model_ref c2 = model_ref c \<longrightarrow>
             fst (fst (celltype h' c2)) (model_ref c2)
               = fst (fst (celltype_run (h' (model_ref c)) c2))
           \<and> snd (fst (celltype h' c2)) = snd (fst (celltype_run (h' (model_ref c)) c2)))"
proof -
  let ?m = "h (model_ref c)"
  from run have h': "h' = h(model_ref c := fst (fst (celltype_run ?m c)))"
    by (simp add: celltype_store)
  have "fst (fst (celltype_run ?m c)) = aligned_model ?m c"
    by (simp add: celltype_run_wf [OF wf])
  with h' have m': "h' (model_ref c) = aligned_model ?m c" by simp
  have 1: "features (classifier (h' (model_ref c)))
           = filter (\<lambda>g. g \<in> set (features (classifier ?m))) (indata_genes c)"
    by (simp add: m' aligned_model_def kept_genes_def)
  have 2: "coef (classifier (h' (model_ref c)))
           = map (\<lambda>w. map ((!) w) (lr_idx_of ?m c)) (coef (classifier ?m))"
    by (simp add: m' aligned_model_def)
  have 3: "n_features_in (classifier (h' (model_ref c))) = length (lr_idx_of ?m c)"
    by (simp add: m' aligned_model_def length_lr_idx_of [OF wf])
  have 4: "scaler (h' (model_ref c)) = scaler ?m"
    by (simp add: m' aligned_model_def)
  have 5: "\<forall>a. a \<noteq> model_ref c \<longrightarrow> h' a = h a"
    by (simp add: h')
  have 6: "\<forall>c2. model_ref c2 = model_ref c \<longrightarrow>
             fst (fst (celltype h' c2)) (model_ref c2)
               = fst (fst (celltype_run (h' (model_ref c)) c2))
           \<and> snd (fst (celltype h' c2)) = snd (fst (celltype_run (h' (model_ref c)) c2))"
    by (simp add: celltype_store)
  from 1 2 3 4 5 6 show ?thesis by blast
qed

lemma wf_first: "wf_input (example_store (model_ref first_input)) first_input"
  by (simp add: wf_input_def example_store_def example_model_def first_input_def)

lemma lr_idx_first: "lr_idx_of example_model first_input = [1]"
  using wf_first
  by (simp add: lr_idx_of_wf example_store_def kept_genes_def positions_def)
     (simp add: example_model_def first_input_def upt_conv_Cons)

lemma first_run_model: "fst (fst (celltype example_store first_input)) 0 = overwritten_model"
  using wf_first
  by (simp add: celltype_store celltype_run_wf aligned_model_def example_store_def lr_idx_first)
     (simp add: example_model_def first_input_def kept_genes_def overwritten_model_def)

lemma second_run_shared:
  "snd (fst (celltype_run overwritten_model example_input))
     = example_input\<lparr>indata := [[3]], indata_genes := [''g2'']\<rparr>"
  unfolding celltype_run_def
  by (simp add: match_genes_def Let_def isin_def where_true_def upt_conv_Cons
                  take_cols_def take_idx_def loc_index_def positions_def overwritten_model_def example_input_def
                   scale_indata_def broadcast_rows_def clip10_def subset_model_def split: sum.splits)

lemma second_run_fresh:
  "snd (fst (celltype_run example_model example_input))
     = example_input\<lparr>indata := [[1, 2]], indata_genes := [''g2'', ''g1'']\<rparr>"
  by (simp add: celltype_run_wf [OF wf_example] rescaled_example kept_genes_example)

theorem celltype_overwrites_shared_model_witness:
  "wf_input (example_store (model_ref first_input)) first_input \<and>
   fst (fst (celltype example_store first_input)) 0 = overwritten_model \<and>
   model_ref example_input = model_ref first_input \<and>
   snd (fst (celltype (fst (fst (celltype example_store first_input))) example_input))
     = example_input\<lparr>indata := [[3]], indata_genes := [''g2'']\<rparr> \<and>
   snd (fst (celltype example_store example_input))
     = example_input\<lparr>indata := [[1, 2]], indata_genes := [''g2'', ''g1'']\<rparr>"
proof -
  obtain h' c' r where run: "celltype example_store first_input = ((h', c'), r)"
    by (metis surj_pair)
  have ref: "model_ref example_input = model_ref first_input"
    by (simp add: example_input_def first_input_def)
  have r0: "model_ref first_input = 0" by (simp add: first_input_def)
  from celltype_overwrites_shared_model [OF wf_first run]
  have shared: "snd (fst (celltype h' example_input))
                  = snd (fst (celltype_run (h' (model_ref first_input)) example_input))"
    using ref by blast
  have "h' 0 = overwritten_model" using run first_run_model by simp
  with shared r0 have 1: "snd (fst (celltype h' example_input))
      = example_input\<lparr>indata := [[3]], indata_genes := [''g2'']\<rparr>"
    by (simp add: second_run_shared)
  have 2: "snd (fst (celltype example_store example_input))
     = example_input\<lparr>indata := [[1, 2]], indata_genes := [''g2'', ''g1'']\<rparr>"
    by (simp add: celltype_store example_store_def second_run_fresh)
  from run 1 2 ref wf_first first_run_model show ?thesis by simp
qed

section \<open>Majority voting\<close>






















section \<open>Probability-match labels\<close>

lemma expit_zero: "expit 0 = 1 / 2"
  by (simp add: expit_def)

lemma expit_gt_half: "1 / 2 < expit x \<longleftrightarrow> 0 < x"
proof -
  have pos: "0 < 1 + exp (- x)" by (simp add: add_pos_pos)
  have "1 / 2 < expit x \<longleftrightarrow> 1 + exp (- x) < 2"
    unfolding expit_def using pos by (simp add: field_simps)
  also have "\<dots> \<longleftrightarrow> exp (- x) < 1" by auto
  also have "\<dots> \<longleftrightarrow> 0 < x" by simp
  finally show ?thesis .
qed

lemma example_scores2:
  "decision_function (classifier example_model) [[0, 0], [2, 0]] = [[0, 0, 0], [2, 0, - 2]]"
  by (simp add: decision_function_def example_model_def dot_def)

lemma example_flags:
  "map (map (\<lambda>p. 1 / 2 < p)) (map (map expit) [[0, 0, 0], [2, 0, - 2]])
     = [[False, False, False], [True, False, False]]"
  by (simp only: list.map expit_gt_half) simp

text \<open>
  C4 at a failing input. The example model scores two cells; the first has every
  probability equal to the threshold 1/2, the second has only class A above it. The
  joined labels are the empty string and A, so the label array is one character wide, and
  the first cell's label after the assignment of \<^verbatim>\<open>'Unassigned'\<close> is \<^verbatim>\<open>U\<close>.
\<close>

theorem prob_match_unassigned_truncated:
  "predict_labels_and_prob example_model [[0, 0], [2, 0]] ''prob match'' (1 / 2)
     = Inr ([[0, 0, 0], [2, 0, - 2]],
            [[expit 0, expit 0, expit 0], [expit 2, expit 0, expit (- 2)]],
            [''U'', ''A''])"
proof -
  have cls: "classes (classifier example_model) = [''A'', ''B'', ''C'']"
    by (simp add: example_model_def)
  have "prob_match_labels [''A'', ''B'', ''C''] (map (map expit) [[0, 0, 0], [2, 0, - 2]]) (1 / 2)
          = Inr [''U'', ''A'']"
    unfolding prob_match_labels_def Let_def example_flags
    by (simp add: where_true_def take_idx_def assign_where_empty_def str_width_def upt_conv_Cons)
  then show ?thesis
    by (simp add: predict_labels_and_prob_def example_scores2 cls Let_def)
qed

section \<open>Model download\<close>

lemma download_models_raises:
  "\<exists>err. snd (download_models force_update model e) = Inl err"
  by (simp add: download_models_def Let_def split: sum.splits)

text \<open>
  The loop by itself goes on after a failed request: with a forced update it requests the
  URL of every model of the index, whatever the requests answer.
\<close>

lemma download_loop_forced_requests:
  "requested (download_loop True n i ms e) = requested e @ map url ms"
proof (induction ms arbitrary: i e)
  case Nil
  then show ?case by simp
next
  case (Cons m ms)
  show ?case
    by (cases "remote e (url m)") (simp_all add: Cons.IH Let_def)
qed

text \<open>
  C9 at a failing input. The index lists two models, neither is on disk, and the request
  for the first fails. \<^verbatim>\<open>download_models\<close> raises at line 249 with no request made; the loop
  of lines 254-265, run on the same index, requests both models and logs the failure of
  the first.
\<close>

theorem download_models_name_error:
  "snd (download_models False None example_env) = Inl NameError \<and>
   requested (fst (download_models False None example_env)) = [] \<and>
   logged (fst (download_models False None example_env)) = [StoringModels] \<and>
   requested (download_loop False 2 0 example_index example_env)
     = [''https://example.org/A.pkl'', ''https://example.org/B.pkl''] \<and>
   logged (download_loop False 2 0 example_index example_env)
     = [Downloading 1 2 ''A.pkl'', Failed ''A.pkl'', Downloading 2 2 ''B.pkl'']"
  by (simp add: download_models_def get_models_index_def load_index_def example_env_def
        example_index_def Let_def get_model_path_def)

end
